theory Spec2Isabelle
  imports Complex_Main "HOL-Library.Multiset"
begin

section \<open>Data model\<close>

text \<open>
  The calculator works on Python floats. The embedding takes every float as an exact
  rational number (\<^typ>\<open>rat\<close>): sums, products, quotients and the remainder by 0.25
  are the exact ones, so rounding errors of binary floating point are not part of the model.
  A missing value (NaN) of the input table is \<^term>\<open>None\<close>.
\<close>

datatype py_error = ValueError | ZeroDivisionError | KeyError | UnboundLocalError | TypeError

text \<open>
  A number whose Python type matters: the retrieval frequency is the \<^verbatim>\<open>int\<close> that
  \<^verbatim>\<open>add_row\<close> builds, or the \<^verbatim>\<open>float\<close> that the floor division
  \<^verbatim>\<open>8760 // duration\<close> returns, and \<^verbatim>\<open>DataFrame.head\<close> accepts only the first.
\<close>

datatype py_num = PyInt int | PyFloat rat

fun num_value :: "py_num \<Rightarrow> rat" where
  "num_value (PyInt k) = of_int k"
| "num_value (PyFloat x) = x"

text \<open>
  The identity part of a case of a flexibility measure: the keys \<^verbatim>\<open>TP\<close>,
  \<^verbatim>\<open>name\<close>, \<^verbatim>\<open>scope\<close>, \<^verbatim>\<open>maximization\<close>, \<^verbatim>\<open>load change\<close> and
  \<^verbatim>\<open>retrieval frequency\<close>. The combination case of \<^verbatim>\<open>calc_measure_combo\<close> is a
  dictionary with these six keys only.
\<close>

record measure_id =
  TP :: string
  name :: string
  scope :: string
  maximization :: string
  load_change :: string
  retrieval_frequency :: py_num

text \<open>
  A full case, as \<^verbatim>\<open>add_row\<close> builds it. The type parameter is the type of the float
  fields: \<^typ>\<open>rat option\<close> for a raw row that may hold NaN, \<^typ>\<open>rat\<close> after
  \<^verbatim>\<open>fillna_dict\<close>.
\<close>

record 'f measure = measure_id +
  power_kw :: 'f
  retrieval_duration :: 'f
  activation_duration :: 'f
  catch_up_time :: 'f

section \<open>auxiliary\_calculation.py\<close>

text \<open>\<^verbatim>\<open>fillna_dict\<close>: every float NaN becomes 0.\<close>

definition fillna :: "rat option \<Rightarrow> rat" where
  "fillna v = (case v of None \<Rightarrow> 0 | Some x \<Rightarrow> x)"

definition fillna_dict :: "(rat option) measure \<Rightarrow> rat measure" where
  "fillna_dict row =
     \<lparr>TP = TP row, name = name row, scope = scope row, maximization = maximization row,
      load_change = load_change row, retrieval_frequency = retrieval_frequency row,
      power_kw = fillna (power_kw row),
      retrieval_duration = fillna (retrieval_duration row),
      activation_duration = fillna (activation_duration row),
      catch_up_time = fillna (catch_up_time row)\<rparr>"

text \<open>Python's \<^verbatim>\<open>x % m\<close> for a positive divisor: the result lies in \<open>[0, m)\<close>.\<close>

definition pymod :: "rat \<Rightarrow> rat \<Rightarrow> rat" where
  "pymod x m = x - m * of_int \<lfloor>x / m\<rfloor>"

text \<open>
  The body of each of the three \<^verbatim>\<open>if x % 0.25: x = x + (0.25 - (x % 0.25))\<close>
  statements.
\<close>

definition round_up_quarter :: "rat \<Rightarrow> rat" where
  "round_up_quarter x = (if pymod x (1/4) \<noteq> 0 then x + (1/4 - pymod x (1/4)) else x)"

text \<open>
  The three local variables \<^verbatim>\<open>rd\<close>, \<^verbatim>\<open>ct\<close>, \<^verbatim>\<open>ad\<close> after the first check
  (lines 122 to 137).
\<close>

definition adapt_durations :: "rat \<Rightarrow> rat \<Rightarrow> rat \<Rightarrow> rat \<times> rat \<times> rat" where
  "adapt_durations rd ct ad =
     (if rd + ct + ad \<le> 1/4 then (1/4, 0, 0)
      else if pymod rd (1/4) + pymod ct (1/4) + pymod ad (1/4) \<noteq> 0
        then (round_up_quarter rd, round_up_quarter ct, round_up_quarter ad)
      else (rd, ct, ad))"

text \<open>
  The second check (lines 146 to 148): \<^verbatim>\<open>8760 // duration\<close> is the floor of the
  quotient, and a float, since \<^verbatim>\<open>duration\<close> is one.
\<close>

definition cap_frequency :: "rat \<Rightarrow> py_num \<Rightarrow> py_num" where
  "cap_frequency duration rf =
     (if duration * num_value rf > 8760 then PyFloat (of_int \<lfloor>8760 / duration\<rfloor>) else rf)"

text \<open>
  \<^verbatim>\<open>check_and_adapt_dsm\<close>. The division \<^verbatim>\<open>power * row['retrieval duration'] / rd\<close>
  raises \<^verbatim>\<open>ZeroDivisionError\<close> when the adapted \<^verbatim>\<open>rd\<close> is 0. The row is updated at
  the keys \<^verbatim>\<open>retrieval duration\<close>, \<^verbatim>\<open>catch-up time\<close>, \<^verbatim>\<open>power\<close> and
  \<^verbatim>\<open>retrieval frequency\<close>; line 153 is the bare expression
  \<^verbatim>\<open>row['activation duration']\<close>, which stores nothing.
\<close>

definition check_and_adapt_dsm :: "(rat option) measure \<Rightarrow> py_error + rat measure" where
  "check_and_adapt_dsm row0 =
     (let row = fillna_dict row0;
          (rd, ct, ad) = adapt_durations (retrieval_duration row) (catch_up_time row)
                           (activation_duration row)
      in if rd = 0 then Inl ZeroDivisionError
         else Inr (row\<lparr>retrieval_duration := rd,
                       catch_up_time := ct,
                       power_kw := power_kw row * retrieval_duration row / rd,
                       retrieval_frequency :=
                         cap_frequency (rd + ct + ad) (retrieval_frequency row)\<rparr>))"

definition is_quarter_multiple :: "rat \<Rightarrow> bool" where
  "is_quarter_multiple x = (pymod x (1/4) = 0)"

section \<open>read\_and\_write.py: the averages pair\<close>

text \<open>
  One row of the table of annual averages: the columns \<^verbatim>\<open>Jahr\<close>,
  \<^verbatim>\<open>spez. CO2 Emissionen [g CO2/kWh]\<close> and \<^verbatim>\<open>mittlerer Strompreis [EUR/MWh]\<close>.
\<close>

record avg_row =
  Jahr :: int
  spez_CO2_Emissionen :: rat
  mittlerer_Strompreis :: rat

text \<open>
  \<^verbatim>\<open>read_avg_price_and_emf\<close>, from the parsed table on: each component of the
  returned tuple is the column of the rows selected by \<^verbatim>\<open>Jahr == year\<close>.
\<close>

definition read_avg_price_and_emf :: "avg_row list \<Rightarrow> int \<Rightarrow> rat list \<times> rat list" where
  "read_avg_price_and_emf df year =
     (let specific_emission = map spez_CO2_Emissionen (filter (\<lambda>r. Jahr r = year) df);
          avg_price = map mittlerer_Strompreis (filter (\<lambda>r. Jahr r = year) df)
      in (avg_price, specific_emission))"

section \<open>calculate\_reduction\_potential.py\<close>

subsection \<open>Load change and cycle length\<close>

definition calc_load_change :: "rat measure \<Rightarrow> rat" where
  "calc_load_change m =
     (let lc = power_kw m / 1000 / 4
      in if load_change m = ''load reduction'' then lc * (- 1) else lc)"

text \<open>
  \<^verbatim>\<open>calc_measure_combo\<close> compares two cycle lengths with \<^verbatim>\<open>==\<close>, so there the
  rounding of the two float additions of \<^verbatim>\<open>calc_rc_length\<close> decides a branch. The
  float addition is therefore a parameter of the model: any function on the numbers.
\<close>

type_synonym float_add = "rat \<Rightarrow> rat \<Rightarrow> rat"

definition calc_rc_length :: "float_add \<Rightarrow> rat measure \<Rightarrow> rat" where
  "calc_rc_length fadd m =
     fadd (fadd (retrieval_duration m) (catch_up_time m)) (activation_duration m)"

subsection \<open>Reduction of one retrieval window\<close>

text \<open>
  A record of the quarter-hourly series, and the same record once
  \<^verbatim>\<open>blocks_quarter_hour\<close> has added its two columns. The index of the data frame is
  the position in the list.
\<close>

record quarter_hour =
  price :: rat
  emf :: rat

record reduction_point = quarter_hour +
  emission_reduction :: rat
  price_reduction :: rat

definition column_value :: "string \<Rightarrow> 'a quarter_hour_scheme \<Rightarrow> rat" where
  "column_value column r = (if column = ''emf'' then emf r else price r)"

text \<open>
  \<^verbatim>\<open>df.loc[lo:hi]\<close> on the default index: the rows whose label lies between
  the two bounds, both included; a bound beyond the last label selects up to the end.
\<close>

definition loc_slice :: "nat \<Rightarrow> rat \<Rightarrow> 'a list \<Rightarrow> 'a list" where
  "loc_slice lo hi df =
     map (\<lambda>i. df ! i)
       (filter (\<lambda>i. (of_nat lo :: rat) \<le> of_nat i \<and> of_nat i \<le> hi) [0..<length df])"

text \<open>Indexing the averages tuple with \<^verbatim>\<open>i\<close>, which is 0 or 1.\<close>

definition tuple_get :: "rat \<times> rat \<Rightarrow> nat \<Rightarrow> rat" where
  "tuple_get avg i = (if i = 0 then fst avg else snd avg)"

definition block_reduction ::
  "nat \<Rightarrow> string \<Rightarrow> 'a quarter_hour_scheme list \<Rightarrow> rat \<Rightarrow> rat \<times> rat \<Rightarrow> rat \<Rightarrow> py_error + rat"
where
  "block_reduction row_name column df_price_emf lc avg_price_emf rd =
     (if column \<notin> set [''emf'', ''price''] then Inl ValueError
      else
        let last_index = of_nat row_name + (rd * 4) - 1;
            i = (if column = ''emf'' then 1 else 0)
        in if last_index > of_nat (length df_price_emf) then Inr 0
           else Inr ((- 1) * sum_list (map (\<lambda>r. lc * column_value column r)
                                        (loc_slice row_name last_index df_price_emf))
                     + lc * tuple_get avg_price_emf i * (rd * 4)))"

text \<open>
  \<^verbatim>\<open>df.apply(..., axis=1)\<close>: the function at every row, stopping at the first error.
  On a frame without rows \<^verbatim>\<open>apply\<close> returns an empty frame instead of a column, and
  the assignment of \<^verbatim>\<open>blocks_quarter_hour\<close> to a single column raises
  \<^verbatim>\<open>ValueError\<close>.
\<close>

fun apply_rows :: "(nat \<Rightarrow> py_error + rat) \<Rightarrow> nat list \<Rightarrow> py_error + rat list" where
  "apply_rows f [] = Inr []"
| "apply_rows f (t # ts) =
     (case f t of
        Inl e \<Rightarrow> Inl e
      | Inr v \<Rightarrow> (case apply_rows f ts of Inl e \<Rightarrow> Inl e | Inr vs \<Rightarrow> Inr (v # vs)))"

definition blocks_quarter_hour ::
  "quarter_hour list \<Rightarrow> rat \<times> rat \<Rightarrow> rat \<Rightarrow> rat \<Rightarrow> py_error + reduction_point list"
where
  "blocks_quarter_hour df_price_emf avg_price_emf lc rd =
     (if df_price_emf = [] then Inl ValueError else
      case apply_rows (\<lambda>t. block_reduction t ''emf'' df_price_emf lc avg_price_emf rd)
             [0..<length df_price_emf] of
        Inl e \<Rightarrow> Inl e
      | Inr es \<Rightarrow>
          (case apply_rows (\<lambda>t. block_reduction t ''price'' df_price_emf lc avg_price_emf rd)
                  [0..<length df_price_emf] of
             Inl e \<Rightarrow> Inl e
           | Inr ps \<Rightarrow>
               Inr (map (\<lambda>(r, e, p). \<lparr>price = price r, emf = emf r,
                                        emission_reduction = e, price_reduction = p\<rparr>)
                      (zip df_price_emf (zip es ps)))))"

subsection \<open>Blocks\<close>

record block =
  blk_max_emission :: rat
  blk_ass_cost :: rat
  blk_max_cost :: rat
  blk_ass_emission :: rat

text \<open>Python's \<^verbatim>\<open>int(x)\<close> on a float truncates towards zero.\<close>

definition py_int :: "rat \<Rightarrow> int" where
  "py_int x = (if 0 \<le> x then \<lfloor>x\<rfloor> else \<lceil>x\<rceil>)"

text \<open>
  \<^verbatim>\<open>idxmax\<close> of one column over the rows with the given labels: the first label
  at which the maximum is attained; pandas raises \<^verbatim>\<open>ValueError\<close> on an empty
  selection.
\<close>

fun idxmax :: "(nat \<Rightarrow> rat) \<Rightarrow> nat list \<Rightarrow> nat option" where
  "idxmax f [] = None"
| "idxmax f (i # is) = Some (foldl (\<lambda>best j. if f best < f j then j else best) i is)"

text \<open>The labels of \<^verbatim>\<open>df.loc[index:(index+block-1)]\<close>.\<close>

definition block_labels :: "nat \<Rightarrow> nat \<Rightarrow> nat \<Rightarrow> nat list" where
  "block_labels n index blk = [index..<min n (index + blk)]"

text \<open>
  The body of the loop of \<^verbatim>\<open>max_in_block\<close> and the loop itself, over
  \<^verbatim>\<open>range(0, len(df), block)\<close> for a positive step.
\<close>

definition block_at :: "reduction_point list \<Rightarrow> nat \<Rightarrow> nat \<Rightarrow> block option" where
  "block_at df index blk =
     (case idxmax (\<lambda>i. emission_reduction (df ! i)) (block_labels (length df) index blk) of
        None \<Rightarrow> None
      | Some ie \<Rightarrow>
          (case idxmax (\<lambda>i. price_reduction (df ! i)) (block_labels (length df) index blk) of
             None \<Rightarrow> None
           | Some ip \<Rightarrow>
               Some \<lparr>blk_max_emission = emission_reduction (df ! ie),
                     blk_ass_cost = price_reduction (df ! ie),
                     blk_max_cost = price_reduction (df ! ip),
                     blk_ass_emission = emission_reduction (df ! ip)\<rparr>))"

function max_in_block_loop ::
  "reduction_point list \<Rightarrow> nat \<Rightarrow> nat \<Rightarrow> block list \<Rightarrow> py_error + block list"
where
  "max_in_block_loop df blk index df_blocks =
     (if blk = 0 \<or> length df \<le> index then Inr df_blocks
      else
        (case block_at df index blk of
           None \<Rightarrow> Inl ValueError
         | Some b \<Rightarrow> max_in_block_loop df blk (index + blk) (df_blocks @ [b])))"
  by pat_completeness auto
termination
  by (relation "measure (\<lambda>(df, blk, index, df_blocks). length df - index)") auto

text \<open>
  \<^verbatim>\<open>max_in_block\<close>: \<^verbatim>\<open>range\<close> raises \<^verbatim>\<open>ValueError\<close> for the step 0 and
  is empty for a negative step.
\<close>

definition max_in_block :: "reduction_point list \<Rightarrow> rat \<Rightarrow> py_error + block list" where
  "max_in_block df len =
     (let blk = py_int (len * 4)
      in if blk = 0 then Inl ValueError
         else if blk < 0 then Inr []
         else max_in_block_loop df (nat blk) 0 [])"

definition calc_blocks ::
  "float_add \<Rightarrow> rat measure \<Rightarrow> quarter_hour list \<Rightarrow> rat \<times> rat \<Rightarrow> py_error + block list"
where
  "calc_blocks fadd m df_price_emf avg_price_emf =
     (let lc = calc_load_change m;
          len = calc_rc_length fadd m
      in case blocks_quarter_hour df_price_emf avg_price_emf lc (retrieval_duration m) of
           Inl e \<Rightarrow> Inl e
         | Inr df_reductions \<Rightarrow> max_in_block df_reductions len)"

subsection \<open>Annual potential\<close>

text \<open>
  A cell of a result row: \<^verbatim>\<open>calc_annual_potential\<close> starts from the lists
  \<^verbatim>\<open>['NaN','NaN']\<close> of strings and overwrites them with sums of numbers.
\<close>

datatype cell = Str string | Num rat

record annual_result =
  res_TP :: string
  res_name :: string
  res_scope :: string
  res_maximization :: string
  res_load_change :: string
  res_max_emission :: cell
  res_ass_cost :: cell
  res_max_cost :: cell
  res_ass_emission :: cell

text \<open>
  \<^verbatim>\<open>DataFrame.head(n)\<close>: the first \<open>n\<close> rows, and for a negative \<open>n\<close> all rows but
  the last \<open>|n|\<close>; a float \<open>n\<close> raises \<^verbatim>\<open>TypeError\<close>, whatever its value.
\<close>

definition head_rows :: "py_num \<Rightarrow> 'a list \<Rightarrow> py_error + 'a list" where
  "head_rows n rows =
     (case n of
        PyFloat x \<Rightarrow> Inl TypeError
      | PyInt k \<Rightarrow>
          Inr (if 0 \<le> k then take (nat k) rows else take (length rows - nat (- k)) rows))"

text \<open>
  The two-column frames \<^verbatim>\<open>blocks[['max. emission','ass. cost']]\<close> and
  \<^verbatim>\<open>blocks[['max. cost','ass. emission']]\<close> are lists of pairs. The source sorts them
  with \<^verbatim>\<open>sort_values(by=<first column>, ascending=False)\<close> and names no sorting
  algorithm, so the order pandas gives to rows of equal key is not fixed by the source.
  The sorting function is therefore a parameter of the model; \<open>sorts_descending\<close> is
  what \<^verbatim>\<open>sort_values\<close> promises: the same rows, in descending order of the first
  column.
\<close>

type_synonym sorter = "(rat \<times> rat) list \<Rightarrow> (rat \<times> rat) list"

definition sorts_descending :: "sorter \<Rightarrow> bool" where
  "sorts_descending srt =
     (\<forall>rows. mset (srt rows) = mset rows \<and> sorted_wrt (\<lambda>a b. fst b \<le> fst a) (srt rows))"

text \<open>
  Two sorting functions that keep this promise: the first leaves rows of equal key in
  their original order (what pandas does for a stable algorithm), the second reverses them.
\<close>

definition sort_values_stable :: sorter where
  "sort_values_stable rows = rev (sort_key fst (rev rows))"

definition sort_values_reversing :: sorter where
  "sort_values_reversing rows = rev (sort_key fst rows)"

text \<open>Lines 550 to 554 (and 559 to 562): sort, \<^verbatim>\<open>head\<close>, keep the positive rows.\<close>

definition k_max_rows ::
  "sorter \<Rightarrow> py_num \<Rightarrow> (rat \<times> rat) list \<Rightarrow> py_error + (rat \<times> rat) list"
where
  "k_max_rows srt k rows =
     (case head_rows k (srt rows) of
        Inl e \<Rightarrow> Inl e
      | Inr k_max \<Rightarrow> Inr (filter (\<lambda>r. 0 < fst r) k_max))"

text \<open>
  \<^verbatim>\<open>calc_annual_potential\<close>: the emission objective first, then the cost objective;
  \<^verbatim>\<open>head\<close> is called only for an objective that is requested.
\<close>

definition calc_annual_potential ::
  "sorter \<Rightarrow> 'a measure_id_scheme \<Rightarrow> block list \<Rightarrow> bool \<Rightarrow> bool \<Rightarrow> py_error + annual_result"
where
  "calc_annual_potential srt m blocks max_co2 max_cost =
     (case (if max_co2 then
              (case k_max_rows srt (retrieval_frequency m)
                      (map (\<lambda>b. (blk_max_emission b, blk_ass_cost b)) blocks) of
                 Inl e \<Rightarrow> Inl e
               | Inr k_max_emissions \<Rightarrow>
                   Inr (Num (sum_list (map fst k_max_emissions)),
                        Num (sum_list (map snd k_max_emissions))))
            else Inr (Str ''NaN'', Str ''NaN'')) of
        Inl e \<Rightarrow> Inl e
      | Inr reduction_emission \<Rightarrow>
          (case (if max_cost then
                   (case k_max_rows srt (retrieval_frequency m)
                           (map (\<lambda>b. (blk_max_cost b, blk_ass_emission b)) blocks) of
                      Inl e \<Rightarrow> Inl e
                    | Inr k_max_cost \<Rightarrow>
                        Inr (Num (sum_list (map fst k_max_cost)),
                             Num (sum_list (map snd k_max_cost))))
                 else Inr (Str ''NaN'', Str ''NaN'')) of
             Inl e \<Rightarrow> Inl e
           | Inr reduction_cost \<Rightarrow>
               Inr \<lparr>res_TP = TP m, res_name = name m, res_scope = scope m,
                    res_maximization = maximization m, res_load_change = load_change m,
                    res_max_emission = fst reduction_emission,
                    res_ass_cost = snd reduction_emission,
                    res_max_cost = fst reduction_cost,
                    res_ass_emission = snd reduction_cost\<rparr>))"

text \<open>
  The selection in the words of the specification, on the sort keys alone: discard the
  keys that are not positive, order the rest descending, take the first \<open>k\<close>.
\<close>

definition spec_top_k_positive :: "nat \<Rightarrow> rat list \<Rightarrow> rat list" where
  "spec_top_k_positive k keys = take k (rev (sort (filter (\<lambda>x. 0 < x) keys)))"

subsection \<open>Combination of load reduction and load increase\<close>

text \<open>The four branches of lines 247 to 260.\<close>

definition combo_block :: "block \<Rightarrow> block \<Rightarrow> block" where
  "combo_block block_lr block_li =
     (if blk_max_emission block_li < blk_max_emission block_lr \<and> blk_max_cost block_li < blk_max_cost block_lr
        then block_lr
      else if blk_max_emission block_lr < blk_max_emission block_li
              \<and> blk_max_cost block_lr < blk_max_cost block_li
        then block_li
      else if blk_max_emission block_li < blk_max_emission block_lr
              \<and> blk_max_cost block_lr < blk_max_cost block_li
        then \<lparr>blk_max_emission = blk_max_emission block_lr, blk_ass_cost = blk_ass_cost block_lr,
              blk_max_cost = blk_max_cost block_li, blk_ass_emission = blk_ass_emission block_li\<rparr>
      else \<lparr>blk_max_emission = blk_max_emission block_li, blk_ass_cost = blk_ass_cost block_li,
            blk_max_cost = blk_max_cost block_lr, blk_ass_emission = blk_ass_emission block_lr\<rparr>)"

text \<open>
  The loop over \<^verbatim>\<open>blocks_lr.iterrows()\<close>; \<^verbatim>\<open>blocks_li.loc[index]\<close> raises
  \<^verbatim>\<open>KeyError\<close> for a label that \<^verbatim>\<open>blocks_li\<close> does not have.
\<close>

fun combo_loop :: "block list \<Rightarrow> nat \<Rightarrow> block list \<Rightarrow> block list \<Rightarrow> py_error + block list" where
  "combo_loop [] index blocks_li blocks_combo = Inr blocks_combo"
| "combo_loop (block_lr # rest) index blocks_li blocks_combo =
     (if index < length blocks_li
        then combo_loop rest (Suc index) blocks_li
               (blocks_combo @ [combo_block block_lr (blocks_li ! index)])
      else Inl KeyError)"

text \<open>The dictionary \<^verbatim>\<open>measure_combo\<close> of lines 263 to 267.\<close>

definition measure_combo :: "rat measure \<Rightarrow> measure_id" where
  "measure_combo measure_lr =
     \<lparr>TP = TP measure_lr, name = name measure_lr, scope = scope measure_lr,
      maximization = maximization measure_lr, load_change = ''combination'',
      retrieval_frequency = retrieval_frequency measure_lr\<rparr>"

text \<open>
  \<^verbatim>\<open>calc_measure_combo\<close>. The variable \<^verbatim>\<open>measure_combo\<close> is assigned inside the
  loop over the blocks, so it is unbound after a loop over no block, and the call that
  reads it raises \<^verbatim>\<open>UnboundLocalError\<close>. Line 236 compares the two lengths that
  \<^verbatim>\<open>calc_rc_length\<close> returned.
\<close>

definition calc_measure_combo ::
  "sorter \<Rightarrow> float_add \<Rightarrow> rat measure \<Rightarrow> rat measure \<Rightarrow> quarter_hour list \<Rightarrow> rat \<times> rat \<Rightarrow>
   annual_result list \<Rightarrow> bool \<Rightarrow> bool \<Rightarrow> py_error + annual_result list"
where
  "calc_measure_combo srt fadd measure_lr measure_li df_price_emf avg_price_emf final_results
     max_co2 max_cost =
     (case calc_blocks fadd measure_lr df_price_emf avg_price_emf of
        Inl e \<Rightarrow> Inl e
      | Inr blocks_lr \<Rightarrow>
     (let length_lr = calc_rc_length fadd measure_lr
      in case calc_annual_potential srt measure_lr blocks_lr max_co2 max_cost of
        Inl e \<Rightarrow> Inl e
      | Inr result_lr \<Rightarrow>
     (let final_results1 = final_results @ [result_lr]
      in case calc_blocks fadd measure_li df_price_emf avg_price_emf of
        Inl e \<Rightarrow> Inl e
      | Inr blocks_li \<Rightarrow>
     (let length_li = calc_rc_length fadd measure_li
      in case calc_annual_potential srt measure_li blocks_li max_co2 max_cost of
        Inl e \<Rightarrow> Inl e
      | Inr result_li \<Rightarrow>
     (let final_results2 = final_results1 @ [result_li]
      in if length_lr = length_li then
           (case combo_loop blocks_lr 0 blocks_li [] of
              Inl e \<Rightarrow> Inl e
            | Inr blocks_combo \<Rightarrow>
                if blocks_lr = [] then Inl UnboundLocalError
                else
                  (case calc_annual_potential srt (measure_combo measure_lr) blocks_combo
                          max_co2 max_cost of
                     Inl e \<Rightarrow> Inl e
                   | Inr result_combo \<Rightarrow> Inr (final_results2 @ [result_combo])))
         else Inr final_results2)))))"

section \<open>Concrete inputs\<close>

text \<open>A raw case as \<^verbatim>\<open>add_row\<close> hands it to \<^verbatim>\<open>check_and_adapt_dsm\<close>, no value missing.\<close>

definition raw_case :: "rat \<Rightarrow> rat \<Rightarrow> rat \<Rightarrow> rat \<Rightarrow> int \<Rightarrow> (rat option) measure" where
  "raw_case p rd ad ct rf =
     \<lparr>TP = ''TP1'', name = ''furnace'', scope = ''potential'', maximization = ''power'',
      load_change = ''load increase'', retrieval_frequency = PyInt rf,
      power_kw = Some p, retrieval_duration = Some rd, activation_duration = Some ad,
      catch_up_time = Some ct\<rparr>"

text \<open>A case after \<^verbatim>\<open>fillna_dict\<close>, as the calculation reads it from the data frame.\<close>

text \<open>The same raw case for the load reduction of the measure.\<close>

definition raw_reduction_case ::
  "rat \<Rightarrow> rat \<Rightarrow> rat \<Rightarrow> rat \<Rightarrow> int \<Rightarrow> (rat option) measure"
where
  "raw_reduction_case p rd ad ct rf =
     (raw_case p rd ad ct rf)\<lparr>load_change := ''load reduction''\<rparr>"

definition flex_case :: "string \<Rightarrow> rat \<Rightarrow> rat \<Rightarrow> rat \<Rightarrow> rat \<Rightarrow> py_num \<Rightarrow> rat measure" where
  "flex_case lc p rd ad ct rf =
     \<lparr>TP = ''TP1'', name = ''furnace'', scope = ''potential'', maximization = ''power'',
      load_change = lc, retrieval_frequency = rf,
      power_kw = p, retrieval_duration = rd, activation_duration = ad, catch_up_time = ct\<rparr>"

text \<open>A series of eight quarter-hours: the prices of the scenario of the specification.\<close>

definition series8 :: "quarter_hour list" where
  "series8 = map (\<lambda>(p, e). \<lparr>price = p, emf = e\<rparr>)
     [(10, 400), (10, 300), (10, 300), (10, 400), (50, 500), (50, 700), (50, 700), (50, 500)]"

text \<open>Five reduction points; only the two reduction columns matter to the blocks.\<close>

definition red5 :: "reduction_point list" where
  "red5 = map (\<lambda>(e, p). \<lparr>price = 0, emf = 0, emission_reduction = e, price_reduction = p\<rparr>)
     [(3, 1), (3, 7), (- 2, 5), (4, 5), (1, - 1)]"

text \<open>Four blocks, two of them with the same maximum emission.\<close>

definition blocks4 :: "block list" where
  "blocks4 =
     map (\<lambda>(e, c, mc, ae). \<lparr>blk_max_emission = e, blk_ass_cost = c,
                            blk_max_cost = mc, blk_ass_emission = ae\<rparr>)
     [(2, 10, 20, 1), (5, - 3, 7, 4), (- 1, 6, 6, - 1), (5, 8, 0, 2)]"

section \<open>Normalization of a case\<close>

lemma floor_rat_numeral_divide [simp]:
  "\<lfloor>(numeral a :: rat) / numeral b\<rfloor> = numeral a div numeral b"
  by (metis floor_divide_of_int_eq of_int_numeral)

lemmas normalize_simps =
  check_and_adapt_dsm_def fillna_dict_def fillna_def adapt_durations_def
  round_up_quarter_def pymod_def Let_def cap_frequency_def is_quarter_multiple_def raw_case_def

lemma pymod_quarter_nonneg: "0 \<le> pymod x (1/4)"
proof -
  have "of_int \<lfloor>x * 4\<rfloor> \<le> x * 4" by (rule of_int_floor_le)
  then show ?thesis by (simp add: pymod_def)
qed

lemma pymod_quarter_less: "pymod x (1/4) < 1/4"
proof -
  have "x * 4 < of_int \<lfloor>x * 4\<rfloor> + 1" using floor_correct [of "x * 4"] by simp
  then show ?thesis by (simp add: pymod_def)
qed

lemma round_up_quarter_ge: "x \<le> round_up_quarter x"
  using pymod_quarter_less [of x] by (simp add: round_up_quarter_def)

text \<open>
  Above a quarter of an hour the three local durations are the rounded ones in both
  remaining branches: where every remainder is 0, rounding changes nothing.
\<close>

lemma adapt_durations_long:
  assumes "1/4 < rd + ct + ad"
  shows "adapt_durations rd ct ad =
           (round_up_quarter rd, round_up_quarter ct, round_up_quarter ad)"
proof (cases "pymod rd (1/4) + pymod ct (1/4) + pymod ad (1/4) = 0")
  case True
  with pymod_quarter_nonneg [of rd] pymod_quarter_nonneg [of ct] pymod_quarter_nonneg [of ad]
  have "pymod rd (1/4) = 0" "pymod ct (1/4) = 0" "pymod ad (1/4) = 0" by linarith+
  with assms True show ?thesis by (simp add: adapt_durations_def round_up_quarter_def)
next
  case False
  with assms show ?thesis by (simp add: adapt_durations_def)
qed

text \<open>
  Claim C9. For a raw case whose total duration (NaN read as 0) is above 0.25 h, every
  result of the normalization has the activation duration of the input, NaN replaced by 0
  and otherwise unchanged, whether or not it is a multiple of 0.25 h. The rounded
  activation duration enters the result only through the retrieval frequency, which is
  the cap computed from the three rounded durations. A result exists whenever the
  retrieval duration is positive.
\<close>

theorem activation_duration_passes_through:
  assumes "1/4 < fillna (retrieval_duration row) + fillna (catch_up_time row)
                 + fillna (activation_duration row)"
  shows "(0 < fillna (retrieval_duration row) \<longrightarrow> (\<exists>r. check_and_adapt_dsm row = Inr r))
       \<and> (\<forall>r. check_and_adapt_dsm row = Inr r \<longrightarrow>
              activation_duration r = fillna (activation_duration row)
            \<and> retrieval_frequency r =
                cap_frequency
                  (round_up_quarter (fillna (retrieval_duration row))
                   + round_up_quarter (fillna (catch_up_time row))
                   + round_up_quarter (fillna (activation_duration row)))
                  (retrieval_frequency row))"
proof -
  let ?rd = "fillna (retrieval_duration row)"
  have pos: "0 < ?rd \<Longrightarrow> round_up_quarter ?rd \<noteq> 0"
    using round_up_quarter_ge [of ?rd] by linarith
  show ?thesis
    using assms pos
    by (auto simp add: check_and_adapt_dsm_def fillna_dict_def adapt_durations_long Let_def
             split: if_splits)
qed

theorem activation_duration_passes_through_witness:
  "1/4 < fillna (retrieval_duration (raw_case 100 (3/10) (1/10) (1/4) 100000))
         + fillna (catch_up_time (raw_case 100 (3/10) (1/10) (1/4) 100000))
         + fillna (activation_duration (raw_case 100 (3/10) (1/10) (1/4) 100000))
   \<and> (\<exists>r. check_and_adapt_dsm (raw_case 100 (3/10) (1/10) (1/4) 100000) = Inr r
          \<and> activation_duration r = 1/10 \<and> retrieval_frequency r = PyFloat 8760)"
proof -
  have h: "1/4 < fillna (retrieval_duration (raw_case 100 (3/10) (1/10) (1/4) 100000))
         + fillna (catch_up_time (raw_case 100 (3/10) (1/10) (1/4) 100000))
         + fillna (activation_duration (raw_case 100 (3/10) (1/10) (1/4) 100000))"
    by (simp add: raw_case_def fillna_def)
  show ?thesis
    using h activation_duration_passes_through [OF h]
    by (simp add: normalize_simps)
qed

text \<open>
  Claim C1 states that the normalized case has three durations on the quarter-hour grid
  and fits into the year. The source rounds the activation duration in the local
  variable \<^verbatim>\<open>ad\<close> and never stores it: the raw case with retrieval duration 0.25 h
  and activation duration 0.1 h comes back with activation duration 0.1 h, and the raw
  case (0.1 h, catch-up 0, activation 0.15 h) with frequency 40000 comes back with the
  durations (0.25, 0, 0.15) and the frequency 35040, which is 14016 h in a year of 8760 h.
\<close>

theorem normalized_activation_duration_off_grid:
  "(\<exists>r. check_and_adapt_dsm (raw_case 4 (1/4) (1/10) 0 2) = Inr r
        \<and> retrieval_duration r = 1/4 \<and> catch_up_time r = 0 \<and> activation_duration r = 1/10
        \<and> \<not> is_quarter_multiple (activation_duration r))
 \<and> (\<exists>r. check_and_adapt_dsm (raw_case 4 (1/10) (3/20) 0 40000) = Inr r
        \<and> retrieval_duration r = 1/4 \<and> catch_up_time r = 0 \<and> activation_duration r = 3/20
        \<and> retrieval_frequency r = PyFloat 35040
        \<and> 8760 < (retrieval_duration r + catch_up_time r + activation_duration r)
                   * num_value (retrieval_frequency r))"
  by (simp add: normalize_simps)

text \<open>
  Claim C6 states that a cycle of at most 0.25 h is normalized to the durations
  (0.25, 0, 0). On the input of the scenario, (0.1, 0.05, 0.05) with power 100 kW, the
  source returns the retrieval duration 0.25, the catch-up time 0 and the power 40, but
  the activation duration is still 0.05.
\<close>

theorem short_cycle_keeps_activation_duration:
  "check_and_adapt_dsm (raw_case 100 (1/10) (1/20) (1/20) 10) =
     Inr \<lparr>TP = ''TP1'', name = ''furnace'', scope = ''potential'', maximization = ''power'',
          load_change = ''load increase'', retrieval_frequency = PyInt 10,
          power_kw = 40, retrieval_duration = 1/4, activation_duration = 1/20,
          catch_up_time = 0\<rparr>"
  by (simp add: normalize_simps)

section \<open>Reduction of one retrieval window\<close>

lemma filter_interval_upt:
  "filter (\<lambda>i. a \<le> i \<and> i < b) [0..<n] = [a..<min n b]"
proof (induction n)
  case 0
  then show ?case by simp
next
  case (Suc n)
  show ?case
  proof (cases "a \<le> n \<and> n < b")
    case True
    then have "[a..<min (Suc n) b] = [a..<n] @ [n]" by (simp add: min_def)
    moreover from True have "[a..<min n b] = [a..<n]" by (simp add: min_def)
    ultimately show ?thesis using Suc True by simp
  next
    case False
    then consider "n < a" | "b \<le> n" by linarith
    then have "[a..<min (Suc n) b] = [a..<min n b]"
    proof cases
      case 1
      then show ?thesis by simp
    next
      case 2
      then have "min (Suc n) b = b" "min n b = b" by simp_all
      then show ?thesis by simp
    qed
    then show ?thesis using Suc False by auto
  qed
qed

lemma window_bound_iff:
  "((of_nat i :: rat) \<le> of_nat t + of_nat w - 1) = (i < t + w)"
proof -
  have "((of_nat i :: rat) \<le> of_nat t + of_nat w - 1)
        = ((of_nat (i + 1) :: rat) \<le> of_nat (t + w))"
    by (simp add: algebra_simps)
  also have "\<dots> = (i + 1 \<le> t + w)" by (simp only: of_nat_le_iff)
  also have "\<dots> = (i < t + w)" by arith
  finally show ?thesis .
qed

text \<open>
  For a window of \<open>w\<close> quarter-hours the slice holds the rows \<open>t, \<dots>, t + w - 1\<close> that
  exist.
\<close>

lemma loc_slice_window:
  "loc_slice t (of_nat t + of_nat w - 1) df = map (\<lambda>i. df ! i) [t..<min (length df) (t + w)]"
  by (simp add: loc_slice_def window_bound_iff filter_interval_upt)

lemma block_reduction_window:
  assumes "rd = of_nat w / 4" and "t + w \<le> length df + 1"
    and "column = ''emf'' \<or> column = ''price''"
  shows "block_reduction t column df lc avg rd =
     Inr (- (\<Sum>i = t..<min (length df) (t + w). lc * column_value column (df ! i))
          + lc * tuple_get avg (if column = ''emf'' then 1 else 0) * of_nat w)"
proof -
  have li: "of_nat t + rd * 4 - 1 = (of_nat t + of_nat w - 1 :: rat)" using assms(1) by simp
  have "\<not> (of_nat (length df) :: rat) < of_nat t + of_nat w - 1"
  proof -
    have "(of_nat (t + w) :: rat) \<le> of_nat (length df + 1)"
      using assms(2) by (simp only: of_nat_le_iff)
    then show ?thesis by simp
  qed
  then show ?thesis
    using assms(3)
    by (auto simp add: block_reduction_def li loc_slice_window Let_def assms(1) comp_def
        interv_sum_list_conv_sum_set_nat)
qed

lemma calc_load_change_eq:
  "calc_load_change m = (if load_change m = ''load reduction'' then - (power_kw m / 1000 / 4)
                          else power_kw m / 1000 / 4)"
  by (simp add: calc_load_change_def Let_def)

lemmas window_eval =
  block_reduction_def loc_slice_def column_value_def tuple_get_def calc_load_change_def
  flex_case_def series8_def Let_def

text \<open>
  Claim C2. For a case whose retrieval duration is \<open>w\<close> quarter-hours and a start \<open>t\<close>
  whose window \<open>t, \<dots>, t + w - 1\<close> lies within the series, the reduction for the price is
  minus the sum of load change times price over the window plus load change times the
  first average times \<open>w\<close>, and the reduction for the emission factor is the same with the
  emission factors and the second average. The load change is power / 1000 / 4, negated
  exactly for the load change \<^verbatim>\<open>load reduction\<close>.
\<close>

theorem window_reduction_formula:
  assumes "retrieval_duration m = of_nat w / 4" and "t + w \<le> length df"
  shows "calc_load_change m =
           (if load_change m = ''load reduction'' then - (power_kw m / 1000 / 4)
            else power_kw m / 1000 / 4)
    \<and> block_reduction t ''price'' df (calc_load_change m) avg (retrieval_duration m) =
        Inr (- (\<Sum>i = t..<t + w. calc_load_change m * price (df ! i))
             + calc_load_change m * fst avg * of_nat w)
    \<and> block_reduction t ''emf'' df (calc_load_change m) avg (retrieval_duration m) =
        Inr (- (\<Sum>i = t..<t + w. calc_load_change m * emf (df ! i))
             + calc_load_change m * snd avg * of_nat w)"
proof -
  from assms(2) have le: "t + w \<le> length df + 1" and m: "min (length df) (t + w) = t + w"
    by simp_all
  show ?thesis
    using block_reduction_window [OF assms(1) le, of "''price''" "calc_load_change m" avg]
          block_reduction_window [OF assms(1) le, of "''emf''" "calc_load_change m" avg]
    by (simp add: m calc_load_change_eq column_value_def tuple_get_def)
qed

theorem window_reduction_formula_witness:
  "retrieval_duration (flex_case ''load reduction'' 4 (1/2) 0 0 (PyInt 2)) = of_nat 2 / 4
   \<and> 1 + 2 \<le> length series8
   \<and> calc_load_change (flex_case ''load reduction'' 4 (1/2) 0 0 (PyInt 2)) = - (1/1000)
   \<and> block_reduction 1 ''price'' series8
        (calc_load_change (flex_case ''load reduction'' 4 (1/2) 0 0 (PyInt 2))) (30, 500)
        (retrieval_duration (flex_case ''load reduction'' 4 (1/2) 0 0 (PyInt 2))) = Inr (- (1/25))
   \<and> block_reduction 1 ''emf'' series8
        (calc_load_change (flex_case ''load reduction'' 4 (1/2) 0 0 (PyInt 2))) (30, 500)
        (retrieval_duration (flex_case ''load reduction'' 4 (1/2) 0 0 (PyInt 2))) = Inr (- (2/5))"
proof -
  have h1: "retrieval_duration (flex_case ''load reduction'' 4 (1/2) 0 0 (PyInt 2)) = of_nat 2 / 4"
    by (simp add: flex_case_def)
  have h2: "1 + 2 \<le> length series8" by (simp add: series8_def)
  show ?thesis
    using h1 h2 window_reduction_formula [OF h1 h2, of "(30, 500)"]
    by (simp add: flex_case_def series8_def calc_load_change_def Let_def
        sum.atLeast_Suc_lessThan numeral_2_eq_2 numeral_3_eq_3)
qed

text \<open>
  Claim C3 states that a window running past the last record gives the reduction 0.
  The source compares \<^verbatim>\<open>last_index > len(df_price_emf)\<close>, the length and not the last
  index. In the series of eight records the window of two quarter-hours starting at the
  last record, index 7, ends at index 8, beyond the last index 7; the check does not fire,
  the slice holds the one record left, and the reduction is the sum over that record
  against the baseline of two quarter-hours: 0.01 for the price and 0.5 for the emission
  factor.
\<close>

theorem window_one_past_year_end_not_zero:
  "of_nat (length series8 - 1) < (of_nat 7 + (1/2) * 4 - 1 :: rat)
   \<and> block_reduction 7 ''price'' series8 (1/1000) (30, 500) (1/2) = Inr (1/100)
   \<and> block_reduction 7 ''emf'' series8 (1/1000) (30, 500) (1/2) = Inr (1/2)"
  by (simp add: window_eval)

text \<open>
  Claim C10. The price objective takes its baseline from the first component of the
  averages pair and nothing from the second, the emission objective takes it from the
  second and nothing from the first; \<^verbatim>\<open>read_avg_price_and_emf\<close> builds the pair with
  the average price first and the annual emission factor second.
\<close>

theorem baseline_follows_pair_order:
  "block_reduction t ''price'' df lc avg rd =
     Inr (if of_nat (length df) < of_nat t + rd * 4 - 1 then 0
          else - sum_list (map (\<lambda>r. lc * price r) (loc_slice t (of_nat t + rd * 4 - 1) df))
               + lc * fst avg * (rd * 4))
   \<and> block_reduction t ''emf'' df lc avg rd =
     Inr (if of_nat (length df) < of_nat t + rd * 4 - 1 then 0
          else - sum_list (map (\<lambda>r. lc * emf r) (loc_slice t (of_nat t + rd * 4 - 1) df))
               + lc * snd avg * (rd * 4))
   \<and> block_reduction t ''price'' df lc (a0, a1) rd = block_reduction t ''price'' df lc (a0, b1) rd
   \<and> block_reduction t ''emf'' df lc (a0, a1) rd = block_reduction t ''emf'' df lc (b0, a1) rd
   \<and> fst (read_avg_price_and_emf tbl year) =
       map mittlerer_Strompreis (filter (\<lambda>r. Jahr r = year) tbl)
   \<and> snd (read_avg_price_and_emf tbl year) =
       map spez_CO2_Emissionen (filter (\<lambda>r. Jahr r = year) tbl)"
  by (simp add: block_reduction_def column_value_def tuple_get_def read_avg_price_and_emf_def
      Let_def)

section \<open>Blocks of one retrieval cycle\<close>

lemma foldl_idxmax:
  fixes f :: "nat \<Rightarrow> rat"
  defines "g \<equiv> (\<lambda>best j. if f best < f j then j else best)"
  shows "\<exists>k < length (i # js). foldl g i js = (i # js) ! k
           \<and> (\<forall>k' < k. f ((i # js) ! k') < f ((i # js) ! k))
           \<and> (\<forall>j \<in> set (i # js). f j \<le> f ((i # js) ! k))"
proof (induction js rule: rev_induct)
  case Nil
  then show ?case by simp
next
  case (snoc x js)
  then obtain k where k: "k < length (i # js)" "foldl g i js = (i # js) ! k"
    "\<forall>k' < k. f ((i # js) ! k') < f ((i # js) ! k)"
    "\<forall>j \<in> set (i # js). f j \<le> f ((i # js) ! k)" by blast
  let ?xs = "i # js @ [x]"
  have nth_old: "\<And>n. n < length (i # js) \<Longrightarrow> ?xs ! n = (i # js) ! n"
    by (metis append_Cons nth_append)
  have nth_new: "?xs ! length (i # js) = x"
    by (metis append_Cons nth_append_length)
  show ?case
  proof (cases "f ((i # js) ! k) < f x")
    case True
    have A: "foldl g i (js @ [x]) = ?xs ! length (i # js)"
      using k(2) True nth_new by (simp add: g_def)
    have B: "\<forall>k' < length (i # js). f (?xs ! k') < f (?xs ! length (i # js))"
    proof (intro allI impI)
      fix k' assume k': "k' < length (i # js)"
      then have "f ((i # js) ! k') \<le> f ((i # js) ! k)" using k(4) nth_mem by blast
      with True nth_old [OF k'] nth_new show "f (?xs ! k') < f (?xs ! length (i # js))"
        by simp
    qed
    have "\<forall>j \<in> set ?xs. f j \<le> f x"
      using k(4) True by (auto simp: less_imp_le intro: order_trans)
    then have C: "\<forall>j \<in> set ?xs. f j \<le> f (?xs ! length (i # js))"
      using nth_new by simp
    have D: "length (i # js) < length ?xs" by simp
    show ?thesis using A B C D by blast
  next
    case False
    have "foldl g i (js @ [x]) = (i # js) ! k" using k(2) False by (simp add: g_def)
    moreover have "\<forall>k' < k. f (?xs ! k') < f (?xs ! k)"
      using k(1,3) nth_old by (metis less_trans)
    moreover have "\<forall>j \<in> set ?xs. f j \<le> f (?xs ! k)"
      using k(1,4) False nth_old [OF k(1)] by auto
    ultimately show ?thesis
      using k(1) nth_old [OF k(1)] by (intro exI [of _ k]) auto
  qed
qed

lemma idxmax_upt:
  fixes f :: "nat \<Rightarrow> rat"
  assumes "lo < hi"
  shows "\<exists>i. idxmax f [lo..<hi] = Some i \<and> lo \<le> i \<and> i < hi
           \<and> (\<forall>j. lo \<le> j \<and> j < hi \<longrightarrow> f j \<le> f i)
           \<and> (\<forall>j. lo \<le> j \<and> j < i \<longrightarrow> f j < f i)"
proof -
  let ?js = "[Suc lo..<hi]"
  have eq: "[lo..<hi] = lo # ?js" using assms by (simp add: upt_conv_Cons)
  obtain k where k: "k < length (lo # ?js)"
    "foldl (\<lambda>best j. if f best < f j then j else best) lo ?js = (lo # ?js) ! k"
    "\<forall>k' < k. f ((lo # ?js) ! k') < f ((lo # ?js) ! k)"
    "\<forall>j \<in> set (lo # ?js). f j \<le> f ((lo # ?js) ! k)"
    using foldl_idxmax [of lo ?js f] by blast
  have len: "length (lo # ?js) = hi - lo" using assms by simp
  have nth: "\<And>n. n < hi - lo \<Longrightarrow> (lo # ?js) ! n = lo + n"
    using eq by (metis nth_upt add.commute less_diff_conv)
  have kk: "k < hi - lo" using k(1) len by simp
  have res: "idxmax f [lo..<hi] = Some (lo + k)" using k(2) nth [OF kk] by (simp add: eq)
  have ge: "\<forall>j. lo \<le> j \<and> j < hi \<longrightarrow> f j \<le> f (lo + k)"
  proof (intro allI impI)
    fix j assume "lo \<le> j \<and> j < hi"
    then have "j \<in> set [lo..<hi]" by simp
    then have "j \<in> set (lo # ?js)" using eq by simp
    with k(4) have "f j \<le> f ((lo # ?js) ! k)" by blast
    then show "f j \<le> f (lo + k)" by (simp only: nth [OF kk])
  qed
  have first: "\<forall>j. lo \<le> j \<and> j < lo + k \<longrightarrow> f j < f (lo + k)"
  proof (intro allI impI)
    fix j assume j: "lo \<le> j \<and> j < lo + k"
    then have lt: "j - lo < k" by arith
    then have "j - lo < hi - lo" using kk by simp
    then have "(lo # ?js) ! (j - lo) = j" using nth [of "j - lo"] j by simp
    then show "f j < f (lo + k)" using k(3) lt nth [OF kk] by (metis)
  qed
  show ?thesis using res ge first kk by (intro exI [of _ "lo + k"]) auto
qed

lemma block_at_Some:
  assumes "index < length df" and "0 < blk"
  shows "\<exists>ie ip. block_at df index blk =
            Some \<lparr>blk_max_emission = emission_reduction (df ! ie),
                  blk_ass_cost = price_reduction (df ! ie),
                  blk_max_cost = price_reduction (df ! ip),
                  blk_ass_emission = emission_reduction (df ! ip)\<rparr>
          \<and> ie \<in> set (block_labels (length df) index blk)
          \<and> ip \<in> set (block_labels (length df) index blk)
          \<and> (\<forall>i \<in> set (block_labels (length df) index blk).
                 emission_reduction (df ! i) \<le> emission_reduction (df ! ie)
               \<and> (i < ie \<longrightarrow> emission_reduction (df ! i) < emission_reduction (df ! ie))
               \<and> price_reduction (df ! i) \<le> price_reduction (df ! ip)
               \<and> (i < ip \<longrightarrow> price_reduction (df ! i) < price_reduction (df ! ip)))"
proof -
  let ?hi = "min (length df) (index + blk)"
  have lt: "index < ?hi" using assms by simp
  obtain ie where ie: "idxmax (\<lambda>i. emission_reduction (df ! i)) [index..<?hi] = Some ie"
    "index \<le> ie" "ie < ?hi"
    "\<forall>j. index \<le> j \<and> j < ?hi \<longrightarrow> emission_reduction (df ! j) \<le> emission_reduction (df ! ie)"
    "\<forall>j. index \<le> j \<and> j < ie \<longrightarrow> emission_reduction (df ! j) < emission_reduction (df ! ie)"
    using idxmax_upt [OF lt, of "\<lambda>i. emission_reduction (df ! i)"] by blast
  obtain ip where ip: "idxmax (\<lambda>i. price_reduction (df ! i)) [index..<?hi] = Some ip"
    "index \<le> ip" "ip < ?hi"
    "\<forall>j. index \<le> j \<and> j < ?hi \<longrightarrow> price_reduction (df ! j) \<le> price_reduction (df ! ip)"
    "\<forall>j. index \<le> j \<and> j < ip \<longrightarrow> price_reduction (df ! j) < price_reduction (df ! ip)"
    using idxmax_upt [OF lt, of "\<lambda>i. price_reduction (df ! i)"] by blast
  show ?thesis
    using ie ip
    by (intro exI [of _ ie] exI [of _ ip]) (simp add: block_at_def block_labels_def)
qed

lemma block_count_step:
  assumes "index < n" and "0 < blk"
  shows "(n - index + blk - 1) div blk = Suc ((n - (index + blk) + blk - 1) div blk)"
proof (cases "index + blk \<le> n")
  case True
  then have "n - index + blk - 1 = (n - (index + blk) + blk - 1) + blk" using assms by arith
  then have "(n - index + blk - 1) div blk = ((n - (index + blk) + blk - 1) + blk) div blk"
    by (simp only:)
  also have "\<dots> = (n - (index + blk) + blk - 1) div blk + 1"
    using assms(2) by (simp only: div_add_self2 [OF less_imp_neq [THEN not_sym]])
  finally show ?thesis by simp
next
  case False
  then have z: "(n - (index + blk) + blk - 1) div blk = 0" using assms(2) by simp
  have "blk * 1 \<le> n - index + blk - 1" "n - index + blk - 1 < blk * Suc 1"
    using assms False by simp_all
  then have "(n - index + blk - 1) div blk = 1" by (rule div_nat_eqI)
  then show ?thesis using z by simp
qed

lemma max_in_block_loop_blocks:
  assumes "0 < blk"
  shows "\<exists>bs. max_in_block_loop df blk index df_blocks = Inr (df_blocks @ bs)
           \<and> length bs = (length df - index + blk - 1) div blk
           \<and> (\<forall>j < length bs. block_at df (index + j * blk) blk = Some (bs ! j))"
  using assms
proof (induction df blk index df_blocks rule: max_in_block_loop.induct)
  case (1 df blk index df_blocks)
  show ?case
  proof (cases "length df \<le> index")
    case True
    then have "(length df - index + blk - 1) div blk = 0" using "1.prems" by simp
    then show ?thesis using True by simp
  next
    case False
    then have lt: "index < length df" by simp
    obtain b where b: "block_at df index blk = Some b"
      using block_at_Some [OF lt "1.prems"] by blast
    from "1.IH" [OF _ b "1.prems"] False "1.prems"
    obtain bs where bs:
      "max_in_block_loop df blk (index + blk) (df_blocks @ [b]) = Inr ((df_blocks @ [b]) @ bs)"
      "length bs = (length df - (index + blk) + blk - 1) div blk"
      "\<forall>j < length bs. block_at df (index + blk + j * blk) blk = Some (bs ! j)"
      by auto
    have run: "max_in_block_loop df blk index df_blocks = Inr (df_blocks @ (b # bs))"
      using bs(1) b False "1.prems" by simp
    have len: "length (b # bs) = (length df - index + blk - 1) div blk"
      using bs(2) block_count_step [OF lt "1.prems"] by simp
    have nth: "\<forall>j < length (b # bs). block_at df (index + j * blk) blk = Some ((b # bs) ! j)"
    proof (intro allI impI)
      fix j assume j: "j < length (b # bs)"
      show "block_at df (index + j * blk) blk = Some ((b # bs) ! j)"
      proof (cases j)
        case 0
        then show ?thesis using b by simp
      next
        case (Suc j')
        then have "j' < length bs" using j by simp
        with bs(3) have "block_at df (index + blk + j' * blk) blk = Some (bs ! j')" by blast
        then show ?thesis using Suc by (simp add: add.assoc)
      qed
    qed
    show ?thesis using run len nth by blast
  qed
qed

lemma block_labels_concat_prefix:
  assumes "0 < L"
  shows "concat (map (\<lambda>j. block_labels n (j * L) L) [0..<k]) = [0..<min n (k * L)]"
proof (induction k)
  case 0
  then show ?case by simp
next
  case (Suc k)
  have "[0..<min n (k * L)] @ [k * L..<min n (k * L + L)] = [0..<min n (Suc k * L)]"
  proof (cases "k * L \<le> n")
    case True
    then have "min n (k * L) = k * L" by simp
    moreover have "k * L \<le> min n (k * L + L)" using True by simp
    then have "[0..<k * L] @ [k * L..<min n (k * L + L)] = [0..<min n (k * L + L)]"
      by (metis le0 upt_add_eq_append le_add_diff_inverse)
    ultimately show ?thesis by (simp add: add.commute)
  next
    case False
    then have "min n (k * L) = n" "min n (k * L + L) = n" by simp_all
    then show ?thesis using False by (simp add: add.commute)
  qed
  with Suc show ?case by (simp add: block_labels_def)
qed

lemma block_labels_partition:
  assumes "0 < L"
  shows "concat (map (\<lambda>j. block_labels n (j * L) L) [0..<(n + L - 1) div L]) = [0..<n]"
proof -
  have "n \<le> ((n + L - 1) div L) * L"
  proof -
    have "(n + L - 1) mod L < L" using assms by simp
    moreover have "((n + L - 1) div L) * L + (n + L - 1) mod L = n + L - 1" by simp
    ultimately show ?thesis by linarith
  qed
  then have "min n (((n + L - 1) div L) * L) = n" by simp
  with block_labels_concat_prefix [OF assms, of n "(n + L - 1) div L"] show ?thesis by simp
qed

text \<open>
  Claim C4. For a positive block length \<open>L\<close> (the truncated cycle length in
  quarter-hours), \<^verbatim>\<open>max_in_block\<close> returns one block per segment, the segments
  \<open>[j * L, min N (j * L + L))\<close> follow each other and together are \<open>[0, N)\<close>, the last
  one being shorter when \<open>L\<close> does not divide \<open>N\<close>. In every block the maximum emission
  is the emission reduction at an index \<open>ie\<close> of its segment, no emission reduction of
  the segment is larger, and the associated cost is the price reduction at the same
  index \<open>ie\<close>; \<open>ie\<close> is the first index of the segment at which the maximum is
  attained. The same holds for the maximum cost and its associated emission, at an
  index \<open>ip\<close>.
\<close>

theorem max_in_block_segments:
  assumes "py_int (len * 4) = int L" and "0 < L"
  shows "\<exists>blocks. max_in_block df len = Inr blocks
     \<and> length blocks = (length df + L - 1) div L
     \<and> concat (map (\<lambda>j. block_labels (length df) (j * L) L) [0..<length blocks])
         = [0..<length df]
     \<and> (\<forall>j < length blocks. \<exists>ie ip.
           ie \<in> set (block_labels (length df) (j * L) L)
         \<and> ip \<in> set (block_labels (length df) (j * L) L)
         \<and> blk_max_emission (blocks ! j) = emission_reduction (df ! ie)
         \<and> blk_ass_cost (blocks ! j) = price_reduction (df ! ie)
         \<and> blk_max_cost (blocks ! j) = price_reduction (df ! ip)
         \<and> blk_ass_emission (blocks ! j) = emission_reduction (df ! ip)
         \<and> (\<forall>i \<in> set (block_labels (length df) (j * L) L).
                emission_reduction (df ! i) \<le> blk_max_emission (blocks ! j)
              \<and> (i < ie \<longrightarrow> emission_reduction (df ! i) < blk_max_emission (blocks ! j))
              \<and> price_reduction (df ! i) \<le> blk_max_cost (blocks ! j)
              \<and> (i < ip \<longrightarrow> price_reduction (df ! i) < blk_max_cost (blocks ! j))))"
proof -
  obtain bs where bs: "max_in_block_loop df L 0 [] = Inr ([] @ bs)"
    "length bs = (length df - 0 + L - 1) div L"
    "\<forall>j < length bs. block_at df (0 + j * L) L = Some (bs ! j)"
    using max_in_block_loop_blocks [OF assms(2), of df 0 "[]"] by blast
  have run: "max_in_block df len = Inr bs"
    using bs(1) assms by (simp add: max_in_block_def Let_def)
  have len: "length bs = (length df + L - 1) div L" using bs(2) by simp
  have part: "concat (map (\<lambda>j. block_labels (length df) (j * L) L) [0..<length bs])
         = [0..<length df]"
    using block_labels_partition [OF assms(2), of "length df"] len by simp
  have each: "\<forall>j < length bs. \<exists>ie ip.
           ie \<in> set (block_labels (length df) (j * L) L)
         \<and> ip \<in> set (block_labels (length df) (j * L) L)
         \<and> blk_max_emission (bs ! j) = emission_reduction (df ! ie)
         \<and> blk_ass_cost (bs ! j) = price_reduction (df ! ie)
         \<and> blk_max_cost (bs ! j) = price_reduction (df ! ip)
         \<and> blk_ass_emission (bs ! j) = emission_reduction (df ! ip)
         \<and> (\<forall>i \<in> set (block_labels (length df) (j * L) L).
                emission_reduction (df ! i) \<le> blk_max_emission (bs ! j)
              \<and> (i < ie \<longrightarrow> emission_reduction (df ! i) < blk_max_emission (bs ! j))
              \<and> price_reduction (df ! i) \<le> blk_max_cost (bs ! j)
              \<and> (i < ip \<longrightarrow> price_reduction (df ! i) < blk_max_cost (bs ! j)))"
  proof (intro allI impI)
    fix j assume j: "j < length bs"
    then have at: "block_at df (j * L) L = Some (bs ! j)" using bs(3) by simp
    have "j * L < length df"
    proof (rule ccontr)
      assume "\<not> j * L < length df"
      then have "length df + L - 1 < (j + 1) * L" using assms(2) by simp
      then have "(length df + L - 1) div L < j + 1"
        using assms(2) by (simp add: div_less_iff_less_mult)
      with j len show False by simp
    qed
    from block_at_Some [OF this assms(2)] obtain ie ip where
      ex: "block_at df (j * L) L =
            Some \<lparr>blk_max_emission = emission_reduction (df ! ie),
                  blk_ass_cost = price_reduction (df ! ie),
                  blk_max_cost = price_reduction (df ! ip),
                  blk_ass_emission = emission_reduction (df ! ip)\<rparr>"
      and mem: "ie \<in> set (block_labels (length df) (j * L) L)"
               "ip \<in> set (block_labels (length df) (j * L) L)"
      and mx: "\<forall>i \<in> set (block_labels (length df) (j * L) L).
                 emission_reduction (df ! i) \<le> emission_reduction (df ! ie)
               \<and> (i < ie \<longrightarrow> emission_reduction (df ! i) < emission_reduction (df ! ie))
               \<and> price_reduction (df ! i) \<le> price_reduction (df ! ip)
               \<and> (i < ip \<longrightarrow> price_reduction (df ! i) < price_reduction (df ! ip))"
      by blast
    from ex at have b: "bs ! j = \<lparr>blk_max_emission = emission_reduction (df ! ie),
                  blk_ass_cost = price_reduction (df ! ie),
                  blk_max_cost = price_reduction (df ! ip),
                  blk_ass_emission = emission_reduction (df ! ip)\<rparr>" by simp
    show "\<exists>ie ip.
           ie \<in> set (block_labels (length df) (j * L) L)
         \<and> ip \<in> set (block_labels (length df) (j * L) L)
         \<and> blk_max_emission (bs ! j) = emission_reduction (df ! ie)
         \<and> blk_ass_cost (bs ! j) = price_reduction (df ! ie)
         \<and> blk_max_cost (bs ! j) = price_reduction (df ! ip)
         \<and> blk_ass_emission (bs ! j) = emission_reduction (df ! ip)
         \<and> (\<forall>i \<in> set (block_labels (length df) (j * L) L).
                emission_reduction (df ! i) \<le> blk_max_emission (bs ! j)
              \<and> (i < ie \<longrightarrow> emission_reduction (df ! i) < blk_max_emission (bs ! j))
              \<and> price_reduction (df ! i) \<le> blk_max_cost (bs ! j)
              \<and> (i < ip \<longrightarrow> price_reduction (df ! i) < blk_max_cost (bs ! j)))"
      using mem mx by (intro exI [of _ ie] exI [of _ ip]) (simp add: b)
  qed
  show ?thesis using run len part each by blast
qed

lemma red5_blocks:
  "max_in_block red5 (1/2) =
     Inr [\<lparr>blk_max_emission = 3, blk_ass_cost = 1, blk_max_cost = 7, blk_ass_emission = 3\<rparr>,
          \<lparr>blk_max_emission = 4, blk_ass_cost = 5, blk_max_cost = 5, blk_ass_emission = - 2\<rparr>,
          \<lparr>blk_max_emission = 1, blk_ass_cost = - 1, blk_max_cost = - 1, blk_ass_emission = 1\<rparr>]"
  by code_simp

theorem max_in_block_segments_witness:
  "py_int ((1/2) * 4) = int 2 \<and> 0 < (2::nat)
   \<and> max_in_block red5 (1/2) =
     Inr [\<lparr>blk_max_emission = 3, blk_ass_cost = 1, blk_max_cost = 7, blk_ass_emission = 3\<rparr>,
          \<lparr>blk_max_emission = 4, blk_ass_cost = 5, blk_max_cost = 5, blk_ass_emission = - 2\<rparr>,
          \<lparr>blk_max_emission = 1, blk_ass_cost = - 1, blk_max_cost = - 1, blk_ass_emission = 1\<rparr>]
   \<and> (3::nat) = (length red5 + 2 - 1) div 2"
proof -
  have h1: "py_int ((1/2) * 4) = int 2" by (simp add: py_int_def)
  have h2: "0 < (2::nat)" by simp
  show ?thesis
    using h1 h2 max_in_block_segments [OF h1 h2, of red5] red5_blocks
    by (simp add: red5_def)
qed

section \<open>Annual potential\<close>

lemma sort_values_stable_sorts: "sorts_descending sort_values_stable"
  unfolding sorts_descending_def sort_values_stable_def
proof (intro allI conjI)
  fix rows :: "(rat \<times> rat) list"
  show "mset (rev (sort_key fst (rev rows))) = mset rows" by simp
  have "sorted (map fst (sort_key fst (rev rows)))" by (rule sorted_sort_key)
  then have "sorted_wrt (\<lambda>a b. fst a \<le> fst b) (sort_key fst (rev rows))"
    by (simp add: sorted_map)
  then show "sorted_wrt (\<lambda>a b. fst b \<le> fst a) (rev (sort_key fst (rev rows)))"
    by (simp add: sorted_wrt_rev)
qed

lemma filter_take_descending:
  fixes l :: "rat list"
  assumes "sorted_wrt (\<lambda>a b. b \<le> a) l"
  shows "filter (\<lambda>x. 0 < x) (take k l) = take k (filter (\<lambda>x. 0 < x) l)"
  using assms
proof (induction l arbitrary: k)
  case Nil
  then show ?case by simp
next
  case (Cons x xs)
  show ?case
  proof (cases k)
    case 0
    then show ?thesis by simp
  next
    case (Suc k')
    show ?thesis
    proof (cases "0 < x")
      case True
      then show ?thesis using Cons Suc by simp
    next
      case False
      then have "\<forall>y \<in> set xs. \<not> 0 < y" using Cons.prems by auto
      then have "filter (\<lambda>x. 0 < x) xs = []" "filter (\<lambda>x. 0 < x) (take k' xs) = []"
        by (auto simp: filter_empty_conv dest: in_set_takeD)
      then show ?thesis using False Suc by simp
    qed
  qed
qed

lemma descending_is_rev_sort:
  fixes l :: "rat list"
  assumes "sorted_wrt (\<lambda>a b. b \<le> a) l" and "mset l = mset ys"
  shows "l = rev (sort ys)"
proof -
  have "sorted (rev l)" using assms(1) by (simp add: sorted_wrt_rev)
  moreover have "mset (rev l) = mset ys" using assms(2) by simp
  ultimately have "sort ys = rev l" by (metis properties_for_sort)
  then show ?thesis by simp
qed

text \<open>
  For an \<^verbatim>\<open>int\<close> frequency \<open>k \<ge> 0\<close> and every function that sorts as
  \<^verbatim>\<open>sort_values\<close> promises, the rows kept are rows of the frame and their keys are the
  \<open>k\<close> largest positive keys in descending order.
\<close>

lemma k_max_rows_top_k:
  assumes "sorts_descending srt" and "0 \<le> k"
  shows "\<exists>sel. k_max_rows srt (PyInt k) rows = Inr sel
       \<and> mset sel \<subseteq># mset rows
       \<and> map fst sel = spec_top_k_positive (nat k) (map fst rows)"
proof -
  let ?s = "srt rows"
  let ?sel = "filter (\<lambda>r. 0 < fst r) (take (nat k) ?s)"
  have run: "k_max_rows srt (PyInt k) rows = Inr ?sel"
    using assms(2) by (simp add: k_max_rows_def head_rows_def)
  have ms: "mset ?s = mset rows" and sd: "sorted_wrt (\<lambda>a b. fst b \<le> fst a) ?s"
    using assms(1) by (simp_all add: sorts_descending_def)
  have "mset (take (nat k) ?s) \<subseteq># mset ?s"
    by (metis append_take_drop_id mset_append mset_subset_eq_add_left)
  then have sub: "mset ?sel \<subseteq># mset rows"
    using ms by (metis mset_filter multiset_filter_subset subset_mset.order_trans)
  have sl: "sorted_wrt (\<lambda>a b. b \<le> a) (map fst ?s)" using sd by (simp add: sorted_wrt_map)
  have "mset (map fst ?s) = mset (map fst rows)" using ms by (metis mset_map)
  with sl have l: "map fst ?s = rev (sort (map fst rows))" by (rule descending_is_rev_sort)
  have "map fst ?sel = filter (\<lambda>x. 0 < x) (take (nat k) (map fst ?s))"
    by (simp add: filter_map comp_def take_map)
  also have "\<dots> = take (nat k) (filter (\<lambda>x. 0 < x) (map fst ?s))"
    using sl by (rule filter_take_descending)
  also have "\<dots> = spec_top_k_positive (nat k) (map fst rows)"
  proof -
    have "filter (\<lambda>x. 0 < x) (rev (sort (map fst rows)))
          = rev (filter (\<lambda>x. 0 < x) (sort (map fst rows)))"
      by (simp only: rev_filter)
    also have "\<dots> = rev (sort (filter (\<lambda>x. 0 < x) (map fst rows)))"
      by (simp only: filter_sort)
    finally show ?thesis by (simp only: l spec_top_k_positive_def)
  qed
  finally show ?thesis using run sub by blast
qed

text \<open>
  The annual result for an \<^verbatim>\<open>int\<close> frequency \<open>k \<ge> 0\<close>: the result exists; for a
  requested objective it is the sum of the keys and the sum of the paired values of the
  rows selected, which are rows of the blocks with the \<open>k\<close> largest positive keys; an
  objective that is not requested is the string \<^verbatim>\<open>'NaN'\<close>, which is not the number 0.
\<close>

lemma annual_potential_top_k:
  fixes m :: "'a measure_id_scheme"
  assumes "sorts_descending srt" and "retrieval_frequency m = PyInt k" and "0 \<le> k"
  shows "\<exists>sel_e sel_c r.
         k_max_rows srt (PyInt k) (map (\<lambda>b. (blk_max_emission b, blk_ass_cost b)) blocks)
           = Inr sel_e
       \<and> k_max_rows srt (PyInt k) (map (\<lambda>b. (blk_max_cost b, blk_ass_emission b)) blocks)
           = Inr sel_c
       \<and> calc_annual_potential srt m blocks max_co2 max_cost = Inr r
       \<and> res_max_emission r = (if max_co2 then Num (sum_list (map fst sel_e)) else Str ''NaN'')
       \<and> res_ass_cost r = (if max_co2 then Num (sum_list (map snd sel_e)) else Str ''NaN'')
       \<and> res_max_cost r = (if max_cost then Num (sum_list (map fst sel_c)) else Str ''NaN'')
       \<and> res_ass_emission r = (if max_cost then Num (sum_list (map snd sel_c)) else Str ''NaN'')
       \<and> mset sel_e \<subseteq># mset (map (\<lambda>b. (blk_max_emission b, blk_ass_cost b)) blocks)
       \<and> map fst sel_e = spec_top_k_positive (nat k) (map blk_max_emission blocks)
       \<and> mset sel_c \<subseteq># mset (map (\<lambda>b. (blk_max_cost b, blk_ass_emission b)) blocks)
       \<and> map fst sel_c = spec_top_k_positive (nat k) (map blk_max_cost blocks)
       \<and> Str ''NaN'' \<noteq> Num 0"
proof -
  obtain sel_e where e:
    "k_max_rows srt (PyInt k) (map (\<lambda>b. (blk_max_emission b, blk_ass_cost b)) blocks) = Inr sel_e"
    "mset sel_e \<subseteq># mset (map (\<lambda>b. (blk_max_emission b, blk_ass_cost b)) blocks)"
    "map fst sel_e = spec_top_k_positive (nat k) (map blk_max_emission blocks)"
    using k_max_rows_top_k [OF assms(1,3),
            of "map (\<lambda>b. (blk_max_emission b, blk_ass_cost b)) blocks"]
    by (auto simp add: comp_def)
  obtain sel_c where c:
    "k_max_rows srt (PyInt k) (map (\<lambda>b. (blk_max_cost b, blk_ass_emission b)) blocks) = Inr sel_c"
    "mset sel_c \<subseteq># mset (map (\<lambda>b. (blk_max_cost b, blk_ass_emission b)) blocks)"
    "map fst sel_c = spec_top_k_positive (nat k) (map blk_max_cost blocks)"
    using k_max_rows_top_k [OF assms(1,3),
            of "map (\<lambda>b. (blk_max_cost b, blk_ass_emission b)) blocks"]
    by (auto simp add: comp_def)
  have "\<exists>r. calc_annual_potential srt m blocks max_co2 max_cost = Inr r
    \<and> res_max_emission r = (if max_co2 then Num (sum_list (map fst sel_e)) else Str ''NaN'')
    \<and> res_ass_cost r = (if max_co2 then Num (sum_list (map snd sel_e)) else Str ''NaN'')
    \<and> res_max_cost r = (if max_cost then Num (sum_list (map fst sel_c)) else Str ''NaN'')
    \<and> res_ass_emission r = (if max_cost then Num (sum_list (map snd sel_c)) else Str ''NaN'')"
    using e(1) c(1) assms(2)
    by (cases max_co2; cases max_cost) (simp_all add: calc_annual_potential_def)
  then show ?thesis using e c by blast
qed

lemma blocks4_annual:
  "calc_annual_potential sort_values_stable (flex_case ''load increase'' 4 (1/4) 0 0 (PyInt 2))
     blocks4 True False =
   Inr \<lparr>res_TP = ''TP1'', res_name = ''furnace'', res_scope = ''potential'',
    res_maximization = ''power'', res_load_change = ''load increase'',
    res_max_emission = Num 10, res_ass_cost = Num 5,
    res_max_cost = Str ''NaN'', res_ass_emission = Str ''NaN''\<rparr>"
  by code_simp

text \<open>
  Which of two blocks of equal key is selected depends on the sorting function: both
  functions below sort as \<^verbatim>\<open>sort_values\<close> promises, and on two rows of key 5 with the
  frequency 1 the first keeps the earlier row and the second the later one.
\<close>

lemma sort_values_reversing_sorts: "sorts_descending sort_values_reversing"
  unfolding sorts_descending_def sort_values_reversing_def
proof (intro allI conjI)
  fix rows :: "(rat \<times> rat) list"
  show "mset (rev (sort_key fst rows)) = mset rows" by simp
  have "sorted (map fst (sort_key fst rows))" by (rule sorted_sort_key)
  then have "sorted_wrt (\<lambda>a b. fst a \<le> fst b) (sort_key fst rows)"
    by (simp add: sorted_map)
  then show "sorted_wrt (\<lambda>a b. fst b \<le> fst a) (rev (sort_key fst rows))"
    by (simp add: sorted_wrt_rev)
qed

lemma tie_order_depends_on_sort:
  "k_max_rows sort_values_stable (PyInt 1) [(5, - 3), (5, 8)] = Inr [(5, - 3)]
   \<and> k_max_rows sort_values_reversing (PyInt 1) [(5, - 3), (5, 8)] = Inr [(5, 8)]"
  by (simp add: k_max_rows_def head_rows_def sort_values_stable_def sort_values_reversing_def)

text \<open>
  Claim C5 states the annual result for every block sequence and every retrieval
  frequency \<open>k\<close>. The source keeps the frequency \<^verbatim>\<open>int\<close> as long as it is not
  capped; a capped frequency is the float \<^verbatim>\<open>8760 // duration\<close>. The raw case with a
  cycle of 1 h and the frequency 100000 is normalized to the float 8760, and on it
  \<^verbatim>\<open>calc_annual_potential\<close> raises \<^verbatim>\<open>TypeError\<close> in \<^verbatim>\<open>head\<close>, for the emission
  objective as for the cost objective, whereas the \<^verbatim>\<open>int\<close> 8760 gives the sums 12 and
  15 over the three blocks of positive maximum emission.
\<close>

theorem capped_frequency_raises_type_error:
  "(\<exists>r. check_and_adapt_dsm (raw_case 4 (1/4) 0 (3/4) 100000) = Inr r
        \<and> retrieval_frequency r = PyFloat 8760
        \<and> calc_annual_potential sort_values_stable r blocks4 True False = Inl TypeError
        \<and> calc_annual_potential sort_values_reversing r blocks4 False True = Inl TypeError)
   \<and> (\<exists>r. calc_annual_potential sort_values_stable
              (flex_case ''load increase'' 4 (1/4) 0 (3/4) (PyInt 8760)) blocks4 True False = Inr r
          \<and> res_max_emission r = Num 12 \<and> res_ass_cost r = Num 15)"
  by (simp add: normalize_simps calc_annual_potential_def k_max_rows_def head_rows_def
      sort_values_stable_def blocks4_def flex_case_def)

section \<open>Combination of load reduction and load increase\<close>

lemma apply_rows_returns:
  assumes "\<forall>t \<in> set ts. \<exists>v. f t = Inr v"
  shows "\<exists>vs. apply_rows f ts = Inr vs \<and> length vs = length ts"
  using assms
proof (induction ts)
  case Nil
  then show ?case by simp
next
  case (Cons t ts)
  then obtain v vs where "f t = Inr v" "apply_rows f ts = Inr vs" "length vs = length ts"
    by auto
  then show ?case by simp
qed

lemma blocks_quarter_hour_returns:
  assumes "df \<noteq> []"
  shows "\<exists>reds. blocks_quarter_hour df avg lc rd = Inr reds \<and> length reds = length df"
proof -
  have "\<forall>t \<in> set [0..<length df]. \<exists>v. block_reduction t ''emf'' df lc avg rd = Inr v"
    by (simp add: block_reduction_def Let_def)
  from apply_rows_returns [OF this] obtain es where
    es: "apply_rows (\<lambda>t. block_reduction t ''emf'' df lc avg rd) [0..<length df] = Inr es"
      "length es = length df"
    by auto
  have "\<forall>t \<in> set [0..<length df]. \<exists>v. block_reduction t ''price'' df lc avg rd = Inr v"
    by (simp add: block_reduction_def Let_def)
  from apply_rows_returns [OF this] obtain ps where
    ps: "apply_rows (\<lambda>t. block_reduction t ''price'' df lc avg rd) [0..<length df] = Inr ps"
      "length ps = length df"
    by auto
  show ?thesis using es ps assms by (simp add: blocks_quarter_hour_def)
qed

lemma max_in_block_returns:
  assumes "0 < py_int (len * 4)"
  shows "\<exists>bs. max_in_block df len = Inr bs
         \<and> length bs = (length df + nat (py_int (len * 4)) - 1) div nat (py_int (len * 4))"
proof -
  let ?L = "nat (py_int (len * 4))"
  have L: "0 < ?L" using assms by simp
  obtain bs where bs: "max_in_block_loop df ?L 0 [] = Inr ([] @ bs)"
    "length bs = (length df - 0 + ?L - 1) div ?L"
    using max_in_block_loop_blocks [OF L, of df 0 "[]"] by blast
  then show ?thesis using assms by (simp add: max_in_block_def Let_def)
qed

lemma calc_blocks_returns:
  assumes "df \<noteq> []" and "0 < py_int (calc_rc_length fadd m * 4)"
  shows "\<exists>bs. calc_blocks fadd m df avg = Inr bs
         \<and> length bs = (length df + nat (py_int (calc_rc_length fadd m * 4)) - 1)
                         div nat (py_int (calc_rc_length fadd m * 4))"
proof -
  obtain reds where reds:
    "blocks_quarter_hour df avg (calc_load_change m) (retrieval_duration m) = Inr reds"
    "length reds = length df"
    using blocks_quarter_hour_returns [OF assms(1)] by blast
  from max_in_block_returns [OF assms(2), of reds] reds show ?thesis
    by (simp add: calc_blocks_def Let_def)
qed

lemma combo_loop_returns:
  assumes "index + length blocks_lr \<le> length blocks_li"
  shows "combo_loop blocks_lr index blocks_li acc =
           Inr (acc @ map (\<lambda>(block_lr, block_li). combo_block block_lr block_li)
                        (zip blocks_lr (drop index blocks_li)))"
  using assms
proof (induction blocks_lr arbitrary: index acc)
  case Nil
  then show ?case by simp
next
  case (Cons b bs)
  then have lt: "index < length blocks_li" and le: "Suc index + length bs \<le> length blocks_li"
    by simp_all
  have d: "drop index blocks_li = blocks_li ! index # drop (Suc index) blocks_li"
    using lt by (simp add: Cons_nth_drop_Suc)
  show ?case using Cons.IH [OF le] lt by (simp add: d)
qed

lemma calc_annual_potential_int:
  fixes m :: "'a measure_id_scheme"
  assumes "retrieval_frequency m = PyInt k"
  shows "\<exists>r. calc_annual_potential srt m blocks max_co2 max_cost = Inr r
             \<and> res_load_change r = load_change m"
  using assms
  by (cases max_co2; cases max_cost)
     (simp_all add: calc_annual_potential_def k_max_rows_def head_rows_def)

text \<open>
  Where the frequency of the load-reduction case and of the load-increase case is an
  \<^verbatim>\<open>int\<close>, the series is not empty and both cycle lengths are at least one
  quarter-hour after truncation, \<^verbatim>\<open>calc_measure_combo\<close> returns, whatever the sorting
  function and the float addition are: it appends the row of the load-reduction case and
  the row of the load-increase case, and exactly one more row, for the load change
  \<^verbatim>\<open>combination\<close>, when the two lengths that \<^verbatim>\<open>calc_rc_length\<close> returned are equal.
\<close>

lemma combo_rows:
  assumes "df \<noteq> []"
    and "0 < py_int (calc_rc_length fadd measure_lr * 4)"
    and "0 < py_int (calc_rc_length fadd measure_li * 4)"
    and "retrieval_frequency measure_lr = PyInt k_lr"
    and "retrieval_frequency measure_li = PyInt k_li"
  shows "\<exists>blocks_lr blocks_li result_lr result_li result_combo.
      calc_blocks fadd measure_lr df avg = Inr blocks_lr
    \<and> calc_blocks fadd measure_li df avg = Inr blocks_li
    \<and> calc_annual_potential srt measure_lr blocks_lr max_co2 max_cost = Inr result_lr
    \<and> calc_annual_potential srt measure_li blocks_li max_co2 max_cost = Inr result_li
    \<and> calc_annual_potential srt (measure_combo measure_lr)
          (map (\<lambda>(block_lr, block_li). combo_block block_lr block_li) (zip blocks_lr blocks_li))
          max_co2 max_cost = Inr result_combo
    \<and> res_load_change result_combo = ''combination''
    \<and> retrieval_frequency (measure_combo measure_lr) = retrieval_frequency measure_lr
    \<and> calc_measure_combo srt fadd measure_lr measure_li df avg final_results max_co2 max_cost =
        Inr (final_results @ [result_lr, result_li]
             @ (if calc_rc_length fadd measure_lr = calc_rc_length fadd measure_li
                then [result_combo] else []))"
proof -
  let ?Lr = "nat (py_int (calc_rc_length fadd measure_lr * 4))"
  let ?Li = "nat (py_int (calc_rc_length fadd measure_li * 4))"
  obtain blocks_lr where lr: "calc_blocks fadd measure_lr df avg = Inr blocks_lr"
    "length blocks_lr = (length df + ?Lr - 1) div ?Lr"
    using calc_blocks_returns [OF assms(1,2)] by blast
  obtain blocks_li where li: "calc_blocks fadd measure_li df avg = Inr blocks_li"
    "length blocks_li = (length df + ?Li - 1) div ?Li"
    using calc_blocks_returns [OF assms(1,3)] by blast
  let ?bc = "map (\<lambda>(block_lr, block_li). combo_block block_lr block_li) (zip blocks_lr blocks_li)"
  obtain result_lr where rlr:
    "calc_annual_potential srt measure_lr blocks_lr max_co2 max_cost = Inr result_lr"
    using calc_annual_potential_int [OF assms(4)] by blast
  obtain result_li where rli:
    "calc_annual_potential srt measure_li blocks_li max_co2 max_cost = Inr result_li"
    using calc_annual_potential_int [OF assms(5)] by blast
  have fc: "retrieval_frequency (measure_combo measure_lr) = PyInt k_lr"
    using assms(4) by (simp add: measure_combo_def)
  obtain result_combo where rc:
    "calc_annual_potential srt (measure_combo measure_lr) ?bc max_co2 max_cost = Inr result_combo"
    "res_load_change result_combo = load_change (measure_combo measure_lr)"
    using calc_annual_potential_int [OF fc] by blast
  have "?Lr \<le> length df + ?Lr - 1" using assms(1) by (cases df) simp_all
  then have "1 \<le> (length df + ?Lr - 1) div ?Lr"
    using assms(2) by (simp add: Suc_le_eq div_greater_zero_iff)
  then have ne: "blocks_lr \<noteq> []" using lr(2) by auto
  have run: "calc_measure_combo srt fadd measure_lr measure_li df avg final_results
               max_co2 max_cost =
        Inr (final_results @ [result_lr, result_li]
             @ (if calc_rc_length fadd measure_lr = calc_rc_length fadd measure_li
                then [result_combo] else []))"
  proof (cases "calc_rc_length fadd measure_lr = calc_rc_length fadd measure_li")
    case True
    then have "length blocks_lr = length blocks_li" using lr(2) li(2) by simp
    then have "0 + length blocks_lr \<le> length blocks_li" by simp
    from combo_loop_returns [OF this, of "[]"]
    have "combo_loop blocks_lr 0 blocks_li [] = Inr ?bc" by simp
    then show ?thesis
      using True lr(1) li(1) rlr rli rc(1) ne by (simp add: calc_measure_combo_def Let_def)
  next
    case False
    then show ?thesis
      using lr(1) li(1) rlr rli by (simp add: calc_measure_combo_def Let_def)
  qed
  have id: "res_load_change result_combo = ''combination''
         \<and> retrieval_frequency (measure_combo measure_lr) = retrieval_frequency measure_lr"
    using rc(2) by (simp add: measure_combo_def)
  show ?thesis using lr(1) li(1) rlr rli rc(1) run id by blast
qed

lemma combo_equal_lengths:
  "calc_measure_combo sort_values_stable (+)
     (flex_case ''load reduction'' 4 (1/4) 0 (1/4) (PyInt 2))
     (flex_case ''load increase'' 4 (1/2) 0 0 (PyInt 2)) series8 (30, 500) [] True True =
   Inr [\<lparr>res_TP = ''TP1'', res_name = ''furnace'', res_scope = ''potential'',
         res_maximization = ''power'', res_load_change = ''load reduction'',
         res_max_emission = Num (2 / 5), res_ass_cost = Num (1 / 25),
         res_max_cost = Num (1 / 25), res_ass_emission = Num (1 / 5)\<rparr>,
        \<lparr>res_TP = ''TP1'', res_name = ''furnace'', res_scope = ''potential'',
         res_maximization = ''power'', res_load_change = ''load increase'',
         res_max_emission = Num (9 / 10), res_ass_cost = Num (1 / 20),
         res_max_cost = Num (2 / 25), res_ass_emission = Num (3 / 5)\<rparr>,
        \<lparr>res_TP = ''TP1'', res_name = ''furnace'', res_scope = ''potential'',
         res_maximization = ''power'', res_load_change = ''combination'',
         res_max_emission = Num (9 / 10), res_ass_cost = Num (1 / 20),
         res_max_cost = Num (2 / 25), res_ass_emission = Num (3 / 5)\<rparr>]"
  by code_simp

lemma combo_different_lengths:
  "calc_measure_combo sort_values_stable (+)
     (flex_case ''load reduction'' 4 (1/4) 0 (1/4) (PyInt 2))
     (flex_case ''load increase'' 4 (1/4) 0 0 (PyInt 2)) series8 (30, 500) [] True True =
   Inr [\<lparr>res_TP = ''TP1'', res_name = ''furnace'', res_scope = ''potential'',
         res_maximization = ''power'', res_load_change = ''load reduction'',
         res_max_emission = Num (2 / 5), res_ass_cost = Num (1 / 25),
         res_max_cost = Num (1 / 25), res_ass_emission = Num (1 / 5)\<rparr>,
        \<lparr>res_TP = ''TP1'', res_name = ''furnace'', res_scope = ''potential'',
         res_maximization = ''power'', res_load_change = ''load increase'',
         res_max_emission = Num (2 / 5), res_ass_cost = Num (1 / 25),
         res_max_cost = Num (1 / 25), res_ass_emission = Num (3 / 10)\<rparr>]"
  by code_simp

lemma combo_int_frequency:
  "calc_measure_combo sort_values_stable (+)
     (flex_case ''load reduction'' 4 (1/2) 0 0 (PyInt 17520))
     (flex_case ''load increase'' 4 (1/2) 0 0 (PyInt 17520)) series8 (30, 500) [] True False =
   Inr [\<lparr>res_TP = ''TP1'', res_name = ''furnace'', res_scope = ''potential'',
         res_maximization = ''power'', res_load_change = ''load reduction'',
         res_max_emission = Num (3 / 5), res_ass_cost = Num (2 / 25),
         res_max_cost = Str ''NaN'', res_ass_emission = Str ''NaN''\<rparr>,
        \<lparr>res_TP = ''TP1'', res_name = ''furnace'', res_scope = ''potential'',
         res_maximization = ''power'', res_load_change = ''load increase'',
         res_max_emission = Num (6 / 5), res_ass_cost = Num (9 / 100),
         res_max_cost = Str ''NaN'', res_ass_emission = Str ''NaN''\<rparr>,
        \<lparr>res_TP = ''TP1'', res_name = ''furnace'', res_scope = ''potential'',
         res_maximization = ''power'', res_load_change = ''combination'',
         res_max_emission = Num (8 / 5), res_ass_cost = Num (13 / 100),
         res_max_cost = Str ''NaN'', res_ass_emission = Str ''NaN''\<rparr>]"
  by code_simp

text \<open>
  Claim C8 states that every pair processed by the combination path yields two rows, or
  three when the cycle lengths are equal. The load reduction and the load increase of a
  measure with a cycle of 0.5 h and the frequency 100000 are both normalized to the float
  frequency 17520, so they are a pair of the combination path, and their cycle lengths
  are equal. On this pair \<^verbatim>\<open>calc_measure_combo\<close> raises \<^verbatim>\<open>TypeError\<close> in the first call
  of \<^verbatim>\<open>calc_annual_potential\<close> and yields no row; with the \<^verbatim>\<open>int\<close> 17520 in place of
  the float the same pair yields the three rows.
\<close>

theorem capped_pair_raises_type_error:
  "check_and_adapt_dsm (raw_reduction_case 4 (1/2) 0 0 100000) =
     Inr (flex_case ''load reduction'' 4 (1/2) 0 0 (PyFloat 17520))
   \<and> check_and_adapt_dsm (raw_case 4 (1/2) 0 0 100000) =
     Inr (flex_case ''load increase'' 4 (1/2) 0 0 (PyFloat 17520))
   \<and> calc_rc_length (+) (flex_case ''load reduction'' 4 (1/2) 0 0 (PyFloat 17520)) =
     calc_rc_length (+) (flex_case ''load increase'' 4 (1/2) 0 0 (PyFloat 17520))
   \<and> calc_measure_combo sort_values_stable (+)
       (flex_case ''load reduction'' 4 (1/2) 0 0 (PyFloat 17520))
       (flex_case ''load increase'' 4 (1/2) 0 0 (PyFloat 17520)) series8 (30, 500) [] True False
     = Inl TypeError
   \<and> (\<exists>r1 r2 r3.
         calc_measure_combo sort_values_stable (+)
           (flex_case ''load reduction'' 4 (1/2) 0 0 (PyInt 17520))
           (flex_case ''load increase'' 4 (1/2) 0 0 (PyInt 17520)) series8 (30, 500) [] True False
         = Inr [r1, r2, r3] \<and> res_load_change r3 = ''combination'')"
proof -
  have norm: "check_and_adapt_dsm (raw_reduction_case 4 (1/2) 0 0 100000) =
     Inr (flex_case ''load reduction'' 4 (1/2) 0 0 (PyFloat 17520))
   \<and> check_and_adapt_dsm (raw_case 4 (1/2) 0 0 100000) =
     Inr (flex_case ''load increase'' 4 (1/2) 0 0 (PyFloat 17520))"
    by (simp add: normalize_simps raw_reduction_case_def flex_case_def)
  have len: "calc_rc_length (+) (flex_case ''load reduction'' 4 (1/2) 0 0 (PyFloat 17520)) =
     calc_rc_length (+) (flex_case ''load increase'' 4 (1/2) 0 0 (PyFloat 17520))"
    by (simp add: calc_rc_length_def flex_case_def)
  have raise: "calc_measure_combo sort_values_stable (+)
       (flex_case ''load reduction'' 4 (1/2) 0 0 (PyFloat 17520))
       (flex_case ''load increase'' 4 (1/2) 0 0 (PyFloat 17520)) series8 (30, 500) [] True False
     = Inl TypeError"
    by code_simp
  show ?thesis using norm len raise combo_int_frequency by simp
qed

end
